theory Spec2Isabelle
  imports Main "HOL-Library.Multiset"
begin

section \<open>Revisioned deployment of a file into an S3 bucket (lib/s3.js)\<close>

text \<open>
  The module \<^verbatim>\<open>lib/s3.js\<close> exports an object with the operations \<^verbatim>\<open>upload\<close>,
  \<^verbatim>\<open>activate\<close>, \<^verbatim>\<open>fetchRevisions\<close> and \<^verbatim>\<open>listAllObjects\<close>, all of them written
  against an S3 client with the four calls \<^verbatim>\<open>listObjects\<close>, \<^verbatim>\<open>headObject\<close>,
  \<^verbatim>\<open>putObject\<close> and \<^verbatim>\<open>copyObject\<close>.

  Strings are lists of characters, one character for one code unit of the JavaScript
  string, for the strings whose code units are below 256; \<^verbatim>\<open>+\<close> is \<open>@\<close>,
  \<^verbatim>\<open>.length\<close> is \<open>length\<close>, \<^verbatim>\<open>===\<close> is \<open>=\<close> and \<^verbatim>\<open>s.substr(n)\<close> is \<open>drop n s\<close>
  (both give the empty string when \<open>n\<close> is beyond the end).

  A promise is the result it settles with: \<open>Inr\<close> the value it resolves with,
  \<open>Inl\<close> the reason it is rejected with. An operation that calls the client takes
  the state of the world and gives its result with the new state.
\<close>

subsection \<open>Data\<close>

text \<open>One item of a listing page: the fields of an S3 object that the module reads.
  \<^verbatim>\<open>LastModified\<close> is a date; it is kept as its time value (milliseconds since the
  epoch), which is what \<^verbatim>\<open>new Date(x) - new Date(y)\<close> subtracts.\<close>

record s3_object =
  Key :: string
  LastModified :: int
  ETag :: string

text \<open>A response of \<^verbatim>\<open>client.listObjects\<close>. \<^verbatim>\<open>NextMarker\<close> may be missing.\<close>

record list_response =
  Contents :: "s3_object list"
  IsTruncated :: bool
  NextMarker :: "string option"

text \<open>What \<^verbatim>\<open>listAllObjects\<close> resolves to: the last response, with the field
  \<^verbatim>\<open>All\<close> added to it.\<close>

record list_result = list_response +
  All :: "s3_object list"

record list_params =
  list_Bucket :: string
  list_Prefix :: string
  list_Marker :: "string option"

record head_params =
  head_Bucket :: string
  head_Key :: string

text \<open>The data of a successful \<^verbatim>\<open>client.headObject\<close>; only \<^verbatim>\<open>ETag\<close> is read.\<close>

record head_data =
  head_ETag :: string

record put_params =
  put_Bucket :: string
  put_Key :: string
  put_ACL :: string
  put_ContentType :: string
  put_CacheControl :: string
  put_ServerSideEncryption :: "string option"
  put_ContentEncoding :: "string option"
  put_Body :: string

record copy_params =
  copy_Bucket :: string
  CopySource :: string
  copy_Key :: string
  copy_ACL :: string
  copy_ServerSideEncryption :: "string option"

text \<open>The error object that the client hands to a callback.\<close>

record aws_error =
  code :: string
  message :: string

text \<open>The \<^verbatim>\<open>options\<close> object that \<^verbatim>\<open>upload\<close>, \<^verbatim>\<open>activate\<close> and
  \<^verbatim>\<open>fetchRevisions\<close> receive. \<^verbatim>\<open>revisionKey\<close> is the revision identifier chosen by
  the caller.\<close>

record options =
  bucket :: string
  acl :: string
  cacheControl :: string
  allowOverwrite :: bool
  prefix :: string
  filePattern :: string
  filePath :: string
  revisionKey :: string
  gzippedFilePaths :: "string list option"
  serverSideEncryption :: "string option"

text \<open>One entry of the list that \<^verbatim>\<open>fetchRevisions\<close> resolves to. The field
  \<^verbatim>\<open>active\<close> holds the value of \<^verbatim>\<open>data.current && d.ETag === data.current.ETag\<close>,
  which is \<^verbatim>\<open>undefined\<close> (here \<open>None\<close>) when \<^verbatim>\<open>data.current\<close> is undefined and
  a boolean otherwise.\<close>

record revision_record =
  revision :: string
  timestamp :: int
  active :: "bool option"

text \<open>The reasons a promise of the module is rejected with: a message string
  (\<^verbatim>\<open>Promise.reject("...")\<close>), the error of an S3 call, the error of
  \<^verbatim>\<open>fs.readFile\<close>, or the \<^verbatim>\<open>TypeError\<close> thrown when a property of
  \<^verbatim>\<open>undefined\<close> is read.\<close>

datatype failure =
  Message string
| S3Error aws_error
| FsError string
| TypeError

subsection \<open>Keys\<close>

text \<open>Modelled from the spec: \<^verbatim>\<open>joinUriSegments\<close> of \<^verbatim>\<open>lib/util/join-uri-segments.js\<close>,
  which is required by \<^verbatim>\<open>lib/s3.js\<close> and is not among the sources. The spec: the
  segments are joined with a single separator, duplicate separators at the join point
  are collapsed, and the join leaves no separator artifact. So the separators that end
  the prefix and those that start the second segment are dropped, and one \<^verbatim>\<open>/\<close>
  is put between what is left; a prefix of which nothing is left puts no separator in
  front. Only the join point is touched: the start of the prefix and the end of the
  second segment stay as they are.\<close>

definition joinUriSegments :: "string \<Rightarrow> string \<Rightarrow> string" where
  "joinUriSegments p uri =
     (let p' = rev (dropWhile (\<lambda>c. c = CHR ''/'') (rev p));
          uri' = dropWhile (\<lambda>c. c = CHR ''/'') uri
      in if p' = [] then uri' else p' @ ''/'' @ uri')"

text \<open>\<^verbatim>\<open>upload\<close> and \<^verbatim>\<open>activate\<close>:
  \<^verbatim>\<open>key = filePattern + ":" + options.revisionKey; revisionKey = joinUriSegments(prefix, key)\<close>.\<close>

definition revisionKeyOf :: "options \<Rightarrow> string" where
  "revisionKeyOf opts =
     joinUriSegments (prefix opts) (filePattern opts @ '':'' @ revisionKey opts)"

text \<open>\<^verbatim>\<open>activate\<close> and \<^verbatim>\<open>fetchRevisions\<close>:
  \<^verbatim>\<open>indexKey = joinUriSegments(prefix, filePattern)\<close>.\<close>

definition indexKeyOf :: "options \<Rightarrow> string" where
  "indexKeyOf opts = joinUriSegments (prefix opts) (filePattern opts)"

text \<open>\<^verbatim>\<open>fetchRevisions\<close>:
  \<^verbatim>\<open>revisionPrefix = joinUriSegments(prefix, options.filePattern + ":")\<close>.\<close>

definition revisionPrefixOf :: "options \<Rightarrow> string" where
  "revisionPrefixOf opts = joinUriSegments (prefix opts) (filePattern opts @ '':'')"

text \<open>\<^verbatim>\<open>fetchRevisions\<close>: \<^verbatim>\<open>revision = d.Key.substr(revisionPrefix.length)\<close>.\<close>

definition stripRevisionPrefix :: "string \<Rightarrow> string \<Rightarrow> string" where
  "stripRevisionPrefix revisionPrefix k = drop (length revisionPrefix) k"

subsection \<open>The S3 client and the calls made to it\<close>

text \<open>The client (\<^verbatim>\<open>this._client\<close>) is any object with the four calls. A call takes
  its parameters and the state of the storage backend and gives what the callback
  receives, \<open>Inl err\<close> or \<open>Inr data\<close>, with the backend's new state.\<close>

record 'b client =
  client_listObjects :: "list_params \<Rightarrow> 'b \<Rightarrow> (aws_error + list_response) \<times> 'b"
  client_headObject :: "head_params \<Rightarrow> 'b \<Rightarrow> (aws_error + head_data) \<times> 'b"
  client_putObject :: "put_params \<Rightarrow> 'b \<Rightarrow> (aws_error + unit) \<times> 'b"
  client_copyObject :: "copy_params \<Rightarrow> 'b \<Rightarrow> (aws_error + unit) \<times> 'b"

datatype call =
  ListObjects list_params
| HeadObject head_params
| PutObject put_params
| CopyObject copy_params

text \<open>The calls that change the bucket.\<close>

fun is_write :: "call \<Rightarrow> bool" where
  "is_write (PutObject _) = True"
| "is_write (CopyObject _) = True"
| "is_write _ = False"

text \<open>The world an operation runs in: the backend behind the client, and the calls
  made to the client so far, oldest first.\<close>

record 'b world =
  backend :: 'b
  calls :: "call list"

definition call_listObjects ::
  "'b client \<Rightarrow> list_params \<Rightarrow> 'b world \<Rightarrow> (aws_error + list_response) \<times> 'b world" where
  "call_listObjects cl params w =
     (case client_listObjects cl params (backend w) of
        (r, b) \<Rightarrow> (r, \<lparr>backend = b, calls = calls w @ [ListObjects params]\<rparr>))"

definition call_headObject ::
  "'b client \<Rightarrow> head_params \<Rightarrow> 'b world \<Rightarrow> (aws_error + head_data) \<times> 'b world" where
  "call_headObject cl params w =
     (case client_headObject cl params (backend w) of
        (r, b) \<Rightarrow> (r, \<lparr>backend = b, calls = calls w @ [HeadObject params]\<rparr>))"

definition call_putObject ::
  "'b client \<Rightarrow> put_params \<Rightarrow> 'b world \<Rightarrow> (aws_error + unit) \<times> 'b world" where
  "call_putObject cl params w =
     (case client_putObject cl params (backend w) of
        (r, b) \<Rightarrow> (r, \<lparr>backend = b, calls = calls w @ [PutObject params]\<rparr>))"

definition call_copyObject ::
  "'b client \<Rightarrow> copy_params \<Rightarrow> 'b world \<Rightarrow> (aws_error + unit) \<times> 'b world" where
  "call_copyObject cl params w =
     (case client_copyObject cl params (backend w) of
        (r, b) \<Rightarrow> (r, \<lparr>backend = b, calls = calls w @ [CopyObject params]\<rparr>))"

subsection \<open>headObject\<close>

text \<open>The module's own \<^verbatim>\<open>headObject(client, params)\<close>: the promise resolves with
  nothing (\<open>Inr None\<close>) when the error's code is \<^verbatim>\<open>'NotFound'\<close>, is rejected with
  any other error, and resolves with the data otherwise.\<close>

definition headObject ::
  "'b client \<Rightarrow> head_params \<Rightarrow> 'b world \<Rightarrow> (failure + head_data option) \<times> 'b world" where
  "headObject cl params w =
     (case call_headObject cl params w of
        (Inl err, w') \<Rightarrow>
          if code err = ''NotFound'' then (Inr None, w') else (Inl (S3Error err), w')
      | (Inr data, w') \<Rightarrow> (Inr (Some data), w'))"

subsection \<open>listAllObjects\<close>

text \<open>\<^verbatim>\<open>response.NextMarker || response.Contents[response.Contents.length - 1].Key\<close>:
  a marker that is missing or the empty string is falsy, and then the key of the last
  item is taken; on an empty page that item is \<^verbatim>\<open>undefined\<close> and reading its
  \<^verbatim>\<open>Key\<close> throws.\<close>

definition truthy :: "string option \<Rightarrow> bool" where
  "truthy v = (case v of None \<Rightarrow> False | Some s \<Rightarrow> s \<noteq> [])"

definition lastKey :: "list_response \<Rightarrow> failure + string" where
  "lastKey response =
     (case Contents response of
        [] \<Rightarrow> Inl TypeError
      | _ \<Rightarrow> Inr (Key (last (Contents response))))"

definition getNextMarker :: "list_response \<Rightarrow> failure + string" where
  "getNextMarker response =
     (case NextMarker response of
        None \<Rightarrow> lastKey response
      | Some m \<Rightarrow> if m \<noteq> [] then Inr m else lastKey response)"

text \<open>\<^verbatim>\<open>response.All = allRevisions; return response\<close>.\<close>

definition withAll :: "list_response \<Rightarrow> s3_object list \<Rightarrow> list_result" where
  "withAll response allRevisions =
     \<lparr>Contents = Contents response, IsTruncated = IsTruncated response,
      NextMarker = NextMarker response, All = allRevisions\<rparr>"

text \<open>\<^verbatim>\<open>listObjectRecursively\<close>: the pages are asked for one after the other, each
  page's items are pushed onto \<^verbatim>\<open>allRevisions\<close>, and a truncated page leads to the
  next request with \<^verbatim>\<open>options.Marker\<close> set. The result is \<open>None\<close> when the
  recursion never ends (a backend whose pages are truncated for ever).\<close>

partial_function (option) listObjectRecursively ::
  "'b client \<Rightarrow> list_params \<Rightarrow> s3_object list \<Rightarrow> 'b world \<Rightarrow>
     ((failure + list_result) \<times> 'b world) option" where
  "listObjectRecursively cl opts allRevisions w =
     (case call_listObjects cl opts w of
        (Inl err, w') \<Rightarrow> Some (Inl (S3Error err), w')
      | (Inr response, w') \<Rightarrow>
          if IsTruncated response then
            (case getNextMarker response of
               Inl e \<Rightarrow> Some (Inl e, w')
             | Inr marker \<Rightarrow>
                 listObjectRecursively cl (opts\<lparr>list_Marker := Some marker\<rparr>)
                   (allRevisions @ Contents response) w')
          else
            Some (Inr (withAll response (allRevisions @ Contents response)), w'))"

declare listObjectRecursively.simps [code]

definition listAllObjects ::
  "'b client \<Rightarrow> list_params \<Rightarrow> 'b world \<Rightarrow> ((failure + list_result) \<times> 'b world) option" where
  "listAllObjects cl opts w = listObjectRecursively cl opts [] w"

subsection \<open>fetchRevisions\<close>

text \<open>\<^verbatim>\<open>Array.prototype.sort\<close> with a comparison function: an element goes before
  the first one it does not compare greater than. The result is the stable sort that
  ECMAScript asks for.\<close>

fun insert_by :: "('a \<Rightarrow> 'a \<Rightarrow> int) \<Rightarrow> 'a \<Rightarrow> 'a list \<Rightarrow> 'a list" where
  "insert_by cmp x [] = [x]"
| "insert_by cmp x (y # ys) =
     (if cmp x y \<le> 0 then x # y # ys else y # insert_by cmp x ys)"

definition js_sort :: "('a \<Rightarrow> 'a \<Rightarrow> int) \<Rightarrow> 'a list \<Rightarrow> 'a list" where
  "js_sort cmp xs = foldr (insert_by cmp) xs []"

text \<open>The comparison function of \<^verbatim>\<open>fetchRevisions\<close>:
  \<^verbatim>\<open>new Date(b.LastModified) - new Date(a.LastModified)\<close>.\<close>

definition byLastModified :: "s3_object \<Rightarrow> s3_object \<Rightarrow> int" where
  "byLastModified a b = LastModified b - LastModified a"

text \<open>The function mapped over the sorted listing.\<close>

definition toRevision :: "string \<Rightarrow> head_data option \<Rightarrow> s3_object \<Rightarrow> revision_record" where
  "toRevision revisionPrefix current d =
     \<lparr>revision = stripRevisionPrefix revisionPrefix (Key d),
      timestamp = LastModified d,
      active = (case current of None \<Rightarrow> None | Some h \<Rightarrow> Some (ETag d = head_ETag h))\<rparr>"

text \<open>The callback after \<^verbatim>\<open>Promise.hash\<close>, for the listing \<^verbatim>\<open>data.revisions.All\<close>
  and the probe's result \<^verbatim>\<open>data.current\<close>.\<close>

definition revisionsOf ::
  "string \<Rightarrow> s3_object list \<Rightarrow> head_data option \<Rightarrow> revision_record list" where
  "revisionsOf revisionPrefix allObjects current =
     map (toRevision revisionPrefix current) (js_sort byLastModified allObjects)"

text \<open>\<^verbatim>\<open>fetchRevisions\<close>. \<^verbatim>\<open>Promise.hash\<close> starts the listing
  (\<^verbatim>\<open>{ Bucket: bucket, Prefix: revisionPrefix }\<close>) and the probe of the index key
  (\<^verbatim>\<open>{ Bucket: bucket, Key: indexKey }\<close>) together and waits for both; here the
  listing runs first and the probe after it. The promise is rejected when either is.\<close>

definition listingParams :: "options \<Rightarrow> list_params" where
  "listingParams opts =
     \<lparr>list_Bucket = bucket opts, list_Prefix = revisionPrefixOf opts, list_Marker = None\<rparr>"

definition probeParams :: "options \<Rightarrow> head_params" where
  "probeParams opts = \<lparr>head_Bucket = bucket opts, head_Key = indexKeyOf opts\<rparr>"

definition fetchRevisions ::
  "'b client \<Rightarrow> options \<Rightarrow> 'b world \<Rightarrow> ((failure + revision_record list) \<times> 'b world) option" where
  "fetchRevisions cl opts w =
     (case listAllObjects cl (listingParams opts) w of
        None \<Rightarrow> None
      | Some (revisions, w1) \<Rightarrow>
          (case headObject cl (probeParams opts) w1 of
             (current, w2) \<Rightarrow>
               (case revisions of
                  Inl e \<Rightarrow> Some (Inl e, w2)
                | Inr res \<Rightarrow>
                    (case current of
                       Inl e \<Rightarrow> Some (Inl e, w2)
                     | Inr cur \<Rightarrow>
                         Some (Inr (revisionsOf (revisionPrefixOf opts) (All res) cur), w2)))))"

subsection \<open>upload\<close>

text \<open>What \<^verbatim>\<open>upload\<close> uses besides the client: \<^verbatim>\<open>mime.lookup\<close>, which gives a
  content type or \<^verbatim>\<open>false\<close>, and \<^verbatim>\<open>fs.readFile\<close>, which gives the file's
  contents or an error.\<close>

record env =
  mime_lookup :: "string \<Rightarrow> string option"
  readFile :: "string \<Rightarrow> string + string"

text \<open>\<^verbatim>\<open>array.indexOf(x)\<close>: the first position of \<open>x\<close>, or \<open>-1\<close>.\<close>

fun indexOf :: "'a list \<Rightarrow> 'a \<Rightarrow> int" where
  "indexOf [] x = -1"
| "indexOf (y # ys) x =
     (if y = x then 0 else (let i = indexOf ys x in if i < 0 then -1 else i + 1))"

definition duplicateRevision :: string where
  "duplicateRevision =
     ''REVISION ALREADY UPLOADED! (set `allowOverwrite: true` if you want to support overwriting revisions)''"

text \<open>The parameters of the write, with \<^verbatim>\<open>Body\<close> already set to the file's
  contents. \<^verbatim>\<open>ServerSideEncryption\<close> is set when the option is truthy, and
  \<^verbatim>\<open>ContentEncoding\<close> when the file pattern is among \<^verbatim>\<open>gzippedFilePaths\<close>.\<close>

definition uploadParams :: "env \<Rightarrow> options \<Rightarrow> string \<Rightarrow> put_params" where
  "uploadParams ev opts fileContents =
     (let gzipped = (case gzippedFilePaths opts of None \<Rightarrow> [] | Some ps \<Rightarrow> ps);
          isGzipped = (indexOf gzipped (filePattern opts) \<noteq> -1)
      in \<lparr>put_Bucket = bucket opts,
          put_Key = revisionKeyOf opts,
          put_ACL = acl opts,
          put_ContentType =
            (case mime_lookup ev (filePath opts) of
               None \<Rightarrow> ''text/html''
             | Some t \<Rightarrow> if t \<noteq> [] then t else ''text/html''),
          put_CacheControl = cacheControl opts,
          put_ServerSideEncryption =
            (if truthy (serverSideEncryption opts) then serverSideEncryption opts else None),
          put_ContentEncoding = (if isGzipped then Some ''gzip'' else None),
          put_Body = fileContents\<rparr>)"

text \<open>\<^verbatim>\<open>upload\<close>: the revisions are fetched, the promise is rejected when the
  revision is among them and \<^verbatim>\<open>allowOverwrite\<close> is not set, else the file is read
  and put under the revision key. Each failure on the way rejects the promise and
  skips what would follow. The log line is not part of the model.\<close>

definition upload ::
  "env \<Rightarrow> 'b client \<Rightarrow> options \<Rightarrow> 'b world \<Rightarrow> ((failure + unit) \<times> 'b world) option" where
  "upload ev cl opts w =
     (case fetchRevisions cl opts w of
        None \<Rightarrow> None
      | Some (Inl e, w1) \<Rightarrow> Some (Inl e, w1)
      | Some (Inr revisions, w1) \<Rightarrow>
          (let found = indexOf (map revision revisions) (revisionKey opts) in
           if found \<ge> 0 \<and> \<not> allowOverwrite opts then
             Some (Inl (Message duplicateRevision), w1)
           else
             (case readFile ev (filePath opts) of
                Inl e \<Rightarrow> Some (Inl (FsError e), w1)
              | Inr fileContents \<Rightarrow>
                  (case call_putObject cl (uploadParams ev opts fileContents) w1 of
                     (Inl err, w2) \<Rightarrow> Some (Inl (S3Error err), w2)
                   | (Inr _, w2) \<Rightarrow> Some (Inr (), w2)))))"

subsection \<open>activate\<close>

text \<open>\<^verbatim>\<open>encodeURIComponent\<close> on strings whose code units are below 256: letters,
  digits and \<^verbatim>\<open>- _ . ! ~ * ' ( )\<close> stay, every other character becomes the
  \<^verbatim>\<open>%XX\<close> of each byte of its UTF-8 encoding (one byte below 128, two from 128 on).\<close>

definition hexDigit :: "nat \<Rightarrow> char" where
  "hexDigit n = ''0123456789ABCDEF'' ! (n mod 16)"

definition percent :: "nat \<Rightarrow> string" where
  "percent b = [CHR ''%'', hexDigit (b div 16), hexDigit b]"

definition unreserved :: "char \<Rightarrow> bool" where
  "unreserved c =
     (let n = (of_char c :: nat) in
      (65 \<le> n \<and> n \<le> 90) \<or> (97 \<le> n \<and> n \<le> 122) \<or> (48 \<le> n \<and> n \<le> 57) \<or>
      c \<in> set ''-_.!~*()'' \<or> n = 39)"

definition encodeChar :: "char \<Rightarrow> string" where
  "encodeChar c =
     (let n = (of_char c :: nat) in
      if unreserved c then [c]
      else if n < 128 then percent n
      else percent (192 + n div 64) @ percent (128 + n mod 64))"

definition encodeURIComponent :: "string \<Rightarrow> string" where
  "encodeURIComponent s = concat (map encodeChar s)"

definition revisionNotFound :: string where
  "revisionNotFound = ''REVISION NOT FOUND!''"

text \<open>The parameters of the copy;
  \<^verbatim>\<open>copySource = encodeURIComponent([bucket, revisionKey].join('/'))\<close>.\<close>

definition activateParams :: "options \<Rightarrow> copy_params" where
  "activateParams opts =
     \<lparr>copy_Bucket = bucket opts,
      CopySource = encodeURIComponent (bucket opts @ ''/'' @ revisionKeyOf opts),
      copy_Key = indexKeyOf opts,
      copy_ACL = acl opts,
      copy_ServerSideEncryption =
        (if truthy (serverSideEncryption opts) then serverSideEncryption opts else None)\<rparr>"

text \<open>\<^verbatim>\<open>activate\<close>: the revisions are fetched; when the revision is among them the
  revision's object is copied to the index key, else the promise is rejected.\<close>

definition activate ::
  "'b client \<Rightarrow> options \<Rightarrow> 'b world \<Rightarrow> ((failure + unit) \<times> 'b world) option" where
  "activate cl opts w =
     (case fetchRevisions cl opts w of
        None \<Rightarrow> None
      | Some (Inl e, w1) \<Rightarrow> Some (Inl e, w1)
      | Some (Inr revisions, w1) \<Rightarrow>
          (let found = indexOf (map revision revisions) (revisionKey opts) in
           if found \<ge> 0 then
             (case call_copyObject cl (activateParams opts) w1 of
                (Inl err, w2) \<Rightarrow> Some (Inl (S3Error err), w2)
              | (Inr _, w2) \<Rightarrow> Some (Inr (), w2))
           else Some (Inl (Message revisionNotFound), w1)))"

subsection \<open>What is observed of a run\<close>

text \<open>A record counts as active when its field \<^verbatim>\<open>active\<close> is \<^verbatim>\<open>true\<close>.\<close>

definition isActive :: "revision_record \<Rightarrow> bool" where
  "isActive r = (active r = Some True)"

text \<open>The calls made between two states of the world, the second one reached from
  the first.\<close>

definition issued :: "'b world \<Rightarrow> 'b world \<Rightarrow> call list" where
  "issued w w' = drop (length (calls w)) (calls w')"

text \<open>The key of the object that a call writes.\<close>

fun writtenKey :: "call \<Rightarrow> string option" where
  "writtenKey (PutObject p) = Some (put_Key p)"
| "writtenKey (CopyObject p) = Some (copy_Key p)"
| "writtenKey _ = None"

subsection \<open>A simulated backend\<close>

text \<open>A backend for running the operations on concrete data: it answers the listing
  requests with the pages of a script, one page for each request in the script's order
  (and with an error once the script is used up), answers every probe with a fixed
  result, and acknowledges every write. The parameters of a request do not change the
  answer.\<close>

record script =
  pages :: "list_response list"
  index :: "aws_error + head_data"

definition scripted :: "script client" where
  "scripted =
     \<lparr>client_listObjects = (\<lambda>params b.
        case pages b of
          [] \<Rightarrow> (Inl \<lparr>code = ''EndOfScript'', message = []\<rparr>, b)
        | r # rs \<Rightarrow> (Inr r, b\<lparr>pages := rs\<rparr>)),
      client_headObject = (\<lambda>params b. (index b, b)),
      client_putObject = (\<lambda>params b. (Inr (), b)),
      client_copyObject = (\<lambda>params b. (Inr (), b))\<rparr>"

subsection \<open>Data for the examples\<close>

definition obj :: "string \<Rightarrow> int \<Rightarrow> string \<Rightarrow> s3_object" where
  "obj k t e = \<lparr>Key = k, LastModified = t, ETag = e\<rparr>"

definition page :: "s3_object list \<Rightarrow> bool \<Rightarrow> string option \<Rightarrow> list_response" where
  "page items truncated marker =
     \<lparr>Contents = items, IsTruncated = truncated, NextMarker = marker\<rparr>"

definition notFound :: aws_error where
  "notFound = \<lparr>code = ''NotFound'', message = ''Not Found''\<rparr>"

definition startWith :: "list_response list \<Rightarrow> aws_error + head_data \<Rightarrow> script world" where
  "startWith ps ix = \<lparr>backend = \<lparr>pages = ps, index = ix\<rparr>, calls = []\<rparr>"

definition listing :: list_params where
  "listing = \<lparr>list_Bucket = ''assets'', list_Prefix = ''app/index.html:'', list_Marker = None\<rparr>"

definition tenObjects :: "s3_object list" where
  "tenObjects = map (\<lambda>k. obj (''app/index.html:'' @ k) 0 k)
     [''a'', ''b'', ''c'', ''d'', ''e'', ''f'', ''g'', ''h'', ''i'', ''j'']"

text \<open>Pages of 3, 3, 3 and 1 items; the second one names its marker.\<close>

definition fourPages :: "list_response list" where
  "fourPages =
     [page (take 3 tenObjects) True None,
      page (take 3 (drop 3 tenObjects)) True (Some ''app/index.html:zz''),
      page (take 3 (drop 6 tenObjects)) True None,
      page (drop 9 tenObjects) False None]"

definition accessDenied :: aws_error where
  "accessDenied = \<lparr>code = ''AccessDenied'', message = ''Access Denied''\<rparr>"

text \<open>A deployment of \<^verbatim>\<open>index.html\<close> under the prefix \<^verbatim>\<open>app\<close>.\<close>

definition deploy :: options where
  "deploy =
     \<lparr>bucket = ''assets'', acl = ''public-read'', cacheControl = ''max-age=0, no-cache'',
      allowOverwrite = False, prefix = ''app'', filePattern = ''index.html'',
      filePath = ''dist/index.html'', revisionKey = ''v1'',
      gzippedFilePaths = None, serverSideEncryption = None\<rparr>"

text \<open>Three revisions in the bucket, and two revisions with the same content.\<close>

definition threeObjects :: "s3_object list" where
  "threeObjects =
     [obj ''app/index.html:v2'' 200 ''e2'',
      obj ''app/index.html:v1'' 100 ''e1'',
      obj ''app/index.html:v3'' 300 ''e3'']"

definition twins :: "s3_object list" where
  "twins = [obj ''app/index.html:v1'' 100 ''e1'', obj ''app/index.html:v2'' 200 ''e1'']"

text \<open>A file system with the one file \<^verbatim>\<open>dist/index.html\<close>.\<close>

definition disk :: env where
  "disk =
     \<lparr>mime_lookup = (\<lambda>path. if path = ''dist/index.html'' then Some ''text/html'' else None),
      readFile = (\<lambda>path. if path = ''dist/index.html'' then Inr ''<html></html>''
                          else Inl ''ENOENT'')\<rparr>"

subsection \<open>Words of the specification\<close>

text \<open>The marker of the request after a page, in the specification's words: the
  page's explicit marker when there is one, else the key of the page's last item. A
  marker that is the empty string counts as none.\<close>

definition markerOf :: "list_response \<Rightarrow> string" where
  "markerOf r = (if truthy (NextMarker r) then the (NextMarker r) else Key (last (Contents r)))"

section \<open>Properties\<close>

subsection \<open>Keys\<close>

lemma dropWhile_slash_colon:
  "dropWhile (\<lambda>c. c = CHR ''/'') (fp @ CHR '':'' # rest) =
   dropWhile (\<lambda>c. c = CHR ''/'') fp @ CHR '':'' # rest"
  by (induction fp) simp_all

lemma joinUriSegments_colon:
  "joinUriSegments p (fp @ CHR '':'' # rest) = joinUriSegments p fp @ CHR '':'' # rest"
  by (simp add: joinUriSegments_def Let_def dropWhile_slash_colon)

lemma revisionKeyOf_split: "revisionKeyOf opts = indexKeyOf opts @ '':'' @ revisionKey opts"
  by (simp add: revisionKeyOf_def indexKeyOf_def joinUriSegments_colon)

lemma revisionPrefixOf_split: "revisionPrefixOf opts = indexKeyOf opts @ '':''"
  by (simp add: revisionPrefixOf_def indexKeyOf_def joinUriSegments_colon)

text \<open>
  Claim C7. The key that \<^verbatim>\<open>upload\<close> builds starts with the prefix that
  \<^verbatim>\<open>fetchRevisions\<close> lists under, this prefix is the index key followed by \<^verbatim>\<open>:\<close>,
  and cutting the prefix off the key as \<^verbatim>\<open>fetchRevisions\<close> does gives back the
  revision identifier, for every prefix, file pattern and revision identifier.
\<close>

theorem revision_key_roundtrip:
  "revisionPrefixOf opts = indexKeyOf opts @ '':'' \<and>
   revisionKeyOf opts = revisionPrefixOf opts @ revisionKey opts \<and>
   take (length (revisionPrefixOf opts)) (revisionKeyOf opts) = revisionPrefixOf opts \<and>
   stripRevisionPrefix (revisionPrefixOf opts) (revisionKeyOf opts) = revisionKey opts"
  by (simp add: revisionKeyOf_split revisionPrefixOf_split stripRevisionPrefix_def)

text \<open>The prefix \<^verbatim>\<open>app\<close>, with or without a separator at its end, and no prefix.\<close>

lemma revision_key_examples:
  "joinUriSegments ''app/'' (''index.html'' @ '':'' @ ''abc123'') = ''app/index.html:abc123''"
  "joinUriSegments ''app'' (''index.html'' @ '':'' @ ''abc123'') = ''app/index.html:abc123''"
  "joinUriSegments [] (''index.html'' @ '':'' @ ''abc123'') = ''index.html:abc123''"
  "stripRevisionPrefix (joinUriSegments ''app/'' (''index.html'' @ '':''))
     ''app/index.html:abc123'' = ''abc123''"
  by (simp_all add: joinUriSegments_def stripRevisionPrefix_def)

subsection \<open>The listing\<close>

lemma All_withAll [simp]: "All (withAll r xs) = xs"
  by (simp add: withAll_def)

lemma call_listObjects_calls:
  "call_listObjects cl opts w = (r, w') \<Longrightarrow> calls w' = calls w @ [ListObjects opts]"
  by (auto simp: call_listObjects_def split: prod.splits)

lemma listObjectRecursively_error:
  "call_listObjects cl opts w = (Inl err, w') \<Longrightarrow>
   listObjectRecursively cl opts acc w = Some (Inl (S3Error err), w')"
  by (subst listObjectRecursively.simps) simp

lemma listObjectRecursively_last:
  "call_listObjects cl opts w = (Inr r, w') \<Longrightarrow> \<not> IsTruncated r \<Longrightarrow>
   listObjectRecursively cl opts acc w =
     Some (Inr (withAll r (acc @ Contents r)), w')"
  by (subst listObjectRecursively.simps) simp

lemma listObjectRecursively_next:
  "call_listObjects cl opts w = (Inr r, w') \<Longrightarrow> IsTruncated r \<Longrightarrow>
   getNextMarker r = Inr m \<Longrightarrow>
   listObjectRecursively cl opts acc w =
     listObjectRecursively cl (opts\<lparr>list_Marker := Some m\<rparr>) (acc @ Contents r) w'"
  by (subst listObjectRecursively.simps) simp

lemma listObjectRecursively_throws:
  "call_listObjects cl opts w = (Inr r, w') \<Longrightarrow> IsTruncated r \<Longrightarrow>
   getNextMarker r = Inl e \<Longrightarrow>
   listObjectRecursively cl opts acc w = Some (Inl e, w')"
  by (subst listObjectRecursively.simps) simp

lemma getNextMarker_TypeError:
  "(getNextMarker r = Inl e) = (e = TypeError \<and> \<not> truthy (NextMarker r) \<and> Contents r = [])"
  by (auto simp: getNextMarker_def lastKey_def truthy_def split: option.splits list.splits)

lemma getNextMarker_markerOf:
  "truthy (NextMarker r) \<or> Contents r \<noteq> [] \<Longrightarrow> getNextMarker r = Inr (markerOf r)"
  by (auto simp: getNextMarker_def lastKey_def truthy_def markerOf_def
      split: option.splits list.splits)

lemma scripted_listObjects:
  "call_listObjects scripted opts \<lparr>backend = \<lparr>pages = r # rs, index = ix\<rparr>, calls = cs\<rparr> =
     (Inr r, \<lparr>backend = \<lparr>pages = rs, index = ix\<rparr>, calls = cs @ [ListObjects opts]\<rparr>)"
  by (simp add: call_listObjects_def scripted_def)

lemma listObjectRecursively_scripted:
  assumes "\<forall>r\<in>set pre. IsTruncated r \<and> (truthy (NextMarker r) \<or> Contents r \<noteq> [])"
    and "\<not> IsTruncated lst"
  shows "listObjectRecursively scripted opts acc
           \<lparr>backend = \<lparr>pages = pre @ lst # rest, index = ix\<rparr>, calls = cs\<rparr> =
         Some (Inr (withAll lst (acc @ concat (map Contents (pre @ [lst])))),
               \<lparr>backend = \<lparr>pages = rest, index = ix\<rparr>,
                calls = cs @ map ListObjects
                  (opts # map (\<lambda>r. opts\<lparr>list_Marker := Some (markerOf r)\<rparr>) pre)\<rparr>)"
  using assms(1)
proof (induction pre arbitrary: opts acc cs)
  case Nil
  show ?case
    using listObjectRecursively_last [OF scripted_listObjects assms(2)] by simp
next
  case (Cons r pre)
  from Cons.prems have t: "IsTruncated r" and m: "getNextMarker r = Inr (markerOf r)"
    by (simp_all add: getNextMarker_markerOf)
  have rest: "\<forall>r\<in>set pre. IsTruncated r \<and> (truthy (NextMarker r) \<or> Contents r \<noteq> [])"
    using Cons.prems by simp
  show ?case
    using listObjectRecursively_next [OF scripted_listObjects t m]
      Cons.IH [OF rest, of "opts\<lparr>list_Marker := Some (markerOf r)\<rparr>"]
    by simp
qed

text \<open>
  Claim C3, as amended. Take any finite sequence of listing responses that holds a
  response that is not truncated, and in which every truncated response before the
  first such one names a marker that is not the empty string or has a page that is not
  empty. Then \<^verbatim>\<open>listAllObjects\<close> asks for one page after the other up to that
  response and no further, resolves with the items of all these pages in the order of
  the requests, and the request after a page carries that page's marker when it has
  one, else the key of the page's last item.
\<close>

theorem listAllObjects_pages:
  assumes "\<forall>r\<in>set pre. IsTruncated r \<and> (truthy (NextMarker r) \<or> Contents r \<noteq> [])"
    and "\<not> IsTruncated lst"
  shows "listAllObjects scripted opts
           \<lparr>backend = \<lparr>pages = pre @ lst # rest, index = ix\<rparr>, calls = cs\<rparr> =
         Some (Inr (withAll lst (concat (map Contents (pre @ [lst])))),
               \<lparr>backend = \<lparr>pages = rest, index = ix\<rparr>,
                calls = cs @ map ListObjects
                  (opts # map (\<lambda>r. opts\<lparr>list_Marker := Some (markerOf r)\<rparr>) pre)\<rparr>)"
  unfolding listAllObjects_def
  using listObjectRecursively_scripted [OF assms, of opts "[]" rest ix cs] by simp

text \<open>Pages of sizes 3, 3, 3 and 1, truncated but for the last: the ten items come
  back in their order.\<close>

theorem listAllObjects_pages_witness:
  "listAllObjects scripted listing (startWith fourPages (Inl notFound)) =
     Some (Inr (withAll (page (drop 9 tenObjects) False None) tenObjects),
           \<lparr>backend = \<lparr>pages = [], index = Inl notFound\<rparr>,
            calls = [ListObjects listing,
                     ListObjects (listing\<lparr>list_Marker := Some ''app/index.html:c''\<rparr>),
                     ListObjects (listing\<lparr>list_Marker := Some ''app/index.html:zz''\<rparr>),
                     ListObjects (listing\<lparr>list_Marker := Some ''app/index.html:i''\<rparr>)]\<rparr>)
   \<and> length tenObjects = 10"
  using listAllObjects_pages [of "butlast fourPages" "last fourPages" listing "[]" "Inl notFound" "[]"]
  by (simp add: fourPages_def tenObjects_def page_def obj_def startWith_def truthy_def markerOf_def)

text \<open>Without the condition on the truncated responses the claim fails: a truncated
  page with no items and no marker ends the listing with a \<^verbatim>\<open>TypeError\<close> although a
  second page was there to fetch; and a marker that is the empty string counts as no
  marker, so the key of the last item is sent in its place.\<close>

theorem listAllObjects_every_sequence_counterexample:
  "listAllObjects scripted listing
     (startWith [page [] True None, page [obj ''app/index.html:a'' 0 ''a''] False None]
        (Inl notFound)) =
   Some (Inl TypeError,
         \<lparr>backend = \<lparr>pages = [page [obj ''app/index.html:a'' 0 ''a''] False None],
                     index = Inl notFound\<rparr>,
          calls = [ListObjects listing]\<rparr>)
   \<and> calls (snd (the (listAllObjects scripted listing
         (startWith [page [obj ''app/index.html:a'' 0 ''a''] True (Some []),
                     page [obj ''app/index.html:b'' 0 ''b''] False None] (Inl notFound))))) =
     [ListObjects listing, ListObjects (listing\<lparr>list_Marker := Some ''app/index.html:a''\<rparr>)]"
  by (simp add: listAllObjects_def listObjectRecursively.simps call_listObjects_def scripted_def
      startWith_def page_def getNextMarker_def lastKey_def obj_def)

text \<open>
  Claim C10. When a response is truncated, names no marker and has an empty page,
  \<^verbatim>\<open>getNextMarker\<close> reads the key of an item that is not there: the listing is
  rejected with the \<^verbatim>\<open>TypeError\<close> and no further request is made. When the
  truncated response names a marker or has an item, the marker is found and the
  listing goes on with the next request.
\<close>

theorem getNextMarker_partial:
  assumes "call_listObjects cl opts w = (Inr r, w')" and "IsTruncated r"
  shows "(\<not> truthy (NextMarker r) \<and> Contents r = [] \<longrightarrow>
            getNextMarker r = Inl TypeError \<and>
            listObjectRecursively cl opts acc w = Some (Inl TypeError, w') \<and>
            listAllObjects cl opts w = Some (Inl TypeError, w') \<and>
            calls w' = calls w @ [ListObjects opts])
       \<and> (truthy (NextMarker r) \<or> Contents r \<noteq> [] \<longrightarrow>
            (\<exists>m. getNextMarker r = Inr m \<and>
               listObjectRecursively cl opts acc w =
                 listObjectRecursively cl (opts\<lparr>list_Marker := Some m\<rparr>) (acc @ Contents r) w'))"
proof (intro conjI impI)
  assume bad: "\<not> truthy (NextMarker r) \<and> Contents r = []"
  then show e: "getNextMarker r = Inl TypeError"
    by (simp add: getNextMarker_TypeError)
  show "listObjectRecursively cl opts acc w = Some (Inl TypeError, w')"
    using assms e by (rule listObjectRecursively_throws)
  show "listAllObjects cl opts w = Some (Inl TypeError, w')"
    unfolding listAllObjects_def using assms e by (rule listObjectRecursively_throws)
  show "calls w' = calls w @ [ListObjects opts]"
    using assms(1) by (rule call_listObjects_calls)
next
  assume "truthy (NextMarker r) \<or> Contents r \<noteq> []"
  then have m: "getNextMarker r = Inr (markerOf r)"
    by (rule getNextMarker_markerOf)
  show "\<exists>m. getNextMarker r = Inr m \<and>
          listObjectRecursively cl opts acc w =
            listObjectRecursively cl (opts\<lparr>list_Marker := Some m\<rparr>) (acc @ Contents r) w'"
    using m listObjectRecursively_next [OF assms m] by blast
qed

theorem getNextMarker_partial_witness:
  "listAllObjects scripted listing
     (startWith [page [] True None, page (take 1 tenObjects) False None] (Inl notFound)) =
     Some (Inl TypeError,
           \<lparr>backend = \<lparr>pages = [page (take 1 tenObjects) False None], index = Inl notFound\<rparr>,
            calls = [ListObjects listing]\<rparr>)
   \<and> listObjectRecursively scripted listing []
         (startWith [page (take 1 tenObjects) True None, page [] False None] (Inl notFound)) =
       listObjectRecursively scripted (listing\<lparr>list_Marker := Some ''app/index.html:a''\<rparr>)
         (take 1 tenObjects)
         \<lparr>backend = \<lparr>pages = [page [] False None], index = Inl notFound\<rparr>,
          calls = [ListObjects listing]\<rparr>"
  using
    getNextMarker_partial [where acc = "[]", OF scripted_listObjects
      [of listing "page [] True None" "[page (take 1 tenObjects) False None]" "Inl notFound" "[]"]]
    getNextMarker_partial [where acc = "[]", OF scripted_listObjects
      [of listing "page (take 1 tenObjects) True None" "[page [] False None]" "Inl notFound" "[]"]]
  by (simp add: startWith_def page_def truthy_def tenObjects_def obj_def getNextMarker_def
      lastKey_def)

subsection \<open>fetchRevisions\<close>

lemma mset_insert_by: "mset (insert_by cmp x ys) = add_mset x (mset ys)"
  by (induction ys) simp_all

lemma mset_js_sort: "mset (js_sort cmp xs) = mset xs"
  by (induction xs) (simp_all add: js_sort_def mset_insert_by)

lemma set_insert_by: "set (insert_by cmp x ys) = insert x (set ys)"
  using mset_insert_by [of cmp x ys] by (metis set_mset_add_mset_insert set_mset_mset)

lemma newest_first_insert_by:
  "sorted_wrt (\<lambda>a b. LastModified b \<le> LastModified a) ys \<Longrightarrow>
   sorted_wrt (\<lambda>a b. LastModified b \<le> LastModified a) (insert_by byLastModified x ys)"
  by (induction ys) (auto simp: set_insert_by byLastModified_def)

lemma newest_first_js_sort:
  "sorted_wrt (\<lambda>a b. LastModified b \<le> LastModified a) (js_sort byLastModified xs)"
  by (induction xs) (simp_all add: js_sort_def newest_first_insert_by)

lemma timestamp_toRevision: "timestamp (toRevision p cur d) = LastModified d"
  by (simp add: toRevision_def)

lemma newest_first_revisionsOf:
  "sorted_wrt (\<lambda>a b. timestamp b \<le> timestamp a) (revisionsOf p ds cur)"
  using newest_first_js_sort [of ds]
  by (simp add: revisionsOf_def sorted_wrt_map timestamp_toRevision)

lemma timestamps_revisionsOf:
  "mset (map timestamp (revisionsOf p ds cur)) = mset (map LastModified ds)"
proof -
  have "map timestamp (revisionsOf p ds cur) = map LastModified (js_sort byLastModified ds)"
    by (simp add: revisionsOf_def timestamp_toRevision)
  then show ?thesis
    using mset_js_sort [of byLastModified ds] by (metis mset_map)
qed

lemma fetchRevisions_resolved:
  "listAllObjects cl (listingParams opts) w = Some (Inr res, w1) \<Longrightarrow>
   headObject cl (probeParams opts) w1 = (Inr cur, w2) \<Longrightarrow>
   fetchRevisions cl opts w =
     Some (Inr (revisionsOf (revisionPrefixOf opts) (All res) cur), w2)"
  by (simp add: fetchRevisions_def)

text \<open>
  Claim C5. Whatever objects the listing gives and whatever the probe of the index key
  finds, \<^verbatim>\<open>fetchRevisions\<close> resolves with records in the order of their timestamps,
  the newest first, and the timestamps are those of the listed objects.
\<close>

theorem fetchRevisions_newest_first:
  assumes "listAllObjects cl (listingParams opts) w = Some (Inr res, w1)"
    and "headObject cl (probeParams opts) w1 = (Inr cur, w2)"
  shows "\<exists>revisions. fetchRevisions cl opts w = Some (Inr revisions, w2) \<and>
           sorted_wrt (\<lambda>a b. timestamp b \<le> timestamp a) revisions \<and>
           mset (map timestamp revisions) = mset (map LastModified (All res))"
  using fetchRevisions_resolved [OF assms] newest_first_revisionsOf timestamps_revisionsOf
  by blast

lemma scripted_headObject:
  "call_headObject scripted params \<lparr>backend = \<lparr>pages = ps, index = ix\<rparr>, calls = cs\<rparr> =
     (ix, \<lparr>backend = \<lparr>pages = ps, index = ix\<rparr>, calls = cs @ [HeadObject params]\<rparr>)"
  by (simp add: call_headObject_def scripted_def)

lemma listAllObjects_one_page:
  "\<not> IsTruncated r \<Longrightarrow>
   listAllObjects scripted opts \<lparr>backend = \<lparr>pages = r # rest, index = ix\<rparr>, calls = cs\<rparr> =
     Some (Inr (withAll r (Contents r)),
           \<lparr>backend = \<lparr>pages = rest, index = ix\<rparr>, calls = cs @ [ListObjects opts]\<rparr>)"
  unfolding listAllObjects_def
  using listObjectRecursively_last [OF scripted_listObjects, where acc = "[]"] by simp

lemma revisionPrefixOf_deploy: "revisionPrefixOf deploy = ''app/index.html:''"
  by (simp add: revisionPrefixOf_def deploy_def joinUriSegments_def)

lemma scripted_listing:
  "listAllObjects scripted params (startWith [page ds False None] ix) =
     Some (Inr (withAll (page ds False None) ds),
           \<lparr>backend = \<lparr>pages = [], index = ix\<rparr>, calls = [ListObjects params]\<rparr>)"
  using listAllObjects_one_page [of "page ds False None" params "[]" ix "[]"]
  by (simp add: startWith_def page_def)

lemma scripted_probe_found:
  "headObject scripted params \<lparr>backend = \<lparr>pages = ps, index = Inr h\<rparr>, calls = cs\<rparr> =
     (Inr (Some h),
      \<lparr>backend = \<lparr>pages = ps, index = Inr h\<rparr>, calls = cs @ [HeadObject params]\<rparr>)"
  by (simp add: headObject_def scripted_headObject)

lemma scripted_probe_missing:
  "headObject scripted params \<lparr>backend = \<lparr>pages = ps, index = Inl notFound\<rparr>, calls = cs\<rparr> =
     (Inr None,
      \<lparr>backend = \<lparr>pages = ps, index = Inl notFound\<rparr>, calls = cs @ [HeadObject params]\<rparr>)"
  by (simp add: headObject_def scripted_headObject notFound_def)

lemma revisionsOf_threeObjects:
  "revisionsOf (revisionPrefixOf deploy) threeObjects cur =
     [toRevision ''app/index.html:'' cur (obj ''app/index.html:v3'' 300 ''e3''),
      toRevision ''app/index.html:'' cur (obj ''app/index.html:v2'' 200 ''e2''),
      toRevision ''app/index.html:'' cur (obj ''app/index.html:v1'' 100 ''e1'')]"
  by (simp add: revisionsOf_def js_sort_def threeObjects_def obj_def byLastModified_def
      revisionPrefixOf_deploy)

text \<open>Objects listed with the timestamps 200, 100 and 300 come back as 300, 200, 100.\<close>

theorem fetchRevisions_newest_first_witness:
  "fetchRevisions scripted deploy (startWith [page threeObjects False None] (Inl notFound)) =
     Some (Inr [\<lparr>revision = ''v3'', timestamp = 300, active = None\<rparr>,
                \<lparr>revision = ''v2'', timestamp = 200, active = None\<rparr>,
                \<lparr>revision = ''v1'', timestamp = 100, active = None\<rparr>],
           \<lparr>backend = \<lparr>pages = [], index = Inl notFound\<rparr>,
            calls = [ListObjects (listingParams deploy), HeadObject (probeParams deploy)]\<rparr>)"
proof -
  have l: "listAllObjects scripted (listingParams deploy)
             (startWith [page threeObjects False None] (Inl notFound)) =
           Some (Inr (withAll (page threeObjects False None) threeObjects),
                 \<lparr>backend = \<lparr>pages = [], index = Inl notFound\<rparr>,
                  calls = [ListObjects (listingParams deploy)]\<rparr>)"
    using listAllObjects_one_page [of "page threeObjects False None"]
    by (simp add: startWith_def page_def)
  have h: "headObject scripted (probeParams deploy)
             \<lparr>backend = \<lparr>pages = [], index = Inl notFound\<rparr>,
              calls = [ListObjects (listingParams deploy)]\<rparr> =
           (Inr None, \<lparr>backend = \<lparr>pages = [], index = Inl notFound\<rparr>,
              calls = [ListObjects (listingParams deploy), HeadObject (probeParams deploy)]\<rparr>)"
    by (simp add: headObject_def scripted_headObject notFound_def)
  from fetchRevisions_newest_first [OF l h] obtain revisions where
    r: "fetchRevisions scripted deploy (startWith [page threeObjects False None] (Inl notFound)) =
          Some (Inr revisions, \<lparr>backend = \<lparr>pages = [], index = Inl notFound\<rparr>,
              calls = [ListObjects (listingParams deploy), HeadObject (probeParams deploy)]\<rparr>)"
    by blast
  have "fetchRevisions scripted deploy (startWith [page threeObjects False None] (Inl notFound)) =
        Some (Inr (revisionsOf (revisionPrefixOf deploy) threeObjects None),
          \<lparr>backend = \<lparr>pages = [], index = Inl notFound\<rparr>,
              calls = [ListObjects (listingParams deploy), HeadObject (probeParams deploy)]\<rparr>)"
    using fetchRevisions_resolved [OF l h] by simp
  with r show ?thesis
    by (simp add: revisionsOf_def js_sort_def threeObjects_def obj_def byLastModified_def
        toRevision_def stripRevisionPrefix_def revisionPrefixOf_deploy)
qed

lemma isActive_toRevision:
  "isActive (toRevision p cur d) = (\<exists>h. cur = Some h \<and> ETag d = head_ETag h)"
  by (cases cur) (simp_all add: isActive_def toRevision_def)

lemma revisionsOf_all2:
  "list_all2 (\<lambda>r d. revision r = drop (length p) (Key d) \<and> timestamp r = LastModified d \<and>
                    isActive r = (\<exists>h. cur = Some h \<and> ETag d = head_ETag h))
     (revisionsOf p ds cur) (js_sort byLastModified ds)"
  unfolding revisionsOf_def list_all2_map1
  by (rule list_all2_refl)
    (simp add: isActive_toRevision, simp add: toRevision_def stripRevisionPrefix_def)

text \<open>
  Claim C4. \<^verbatim>\<open>fetchRevisions\<close> resolves with one record for each listed object, and
  the record is active if and only if the probe of the index key found an object and
  that object's \<^verbatim>\<open>ETag\<close> is the listed object's. When the index key does not exist
  no record is active.
\<close>

theorem fetchRevisions_active:
  assumes "listAllObjects cl (listingParams opts) w = Some (Inr res, w1)"
    and "headObject cl (probeParams opts) w1 = (Inr cur, w2)"
  shows "\<exists>revisions ds. fetchRevisions cl opts w = Some (Inr revisions, w2) \<and>
           mset ds = mset (All res) \<and>
           list_all2 (\<lambda>r d. revision r = drop (length (revisionPrefixOf opts)) (Key d) \<and>
                           timestamp r = LastModified d \<and>
                           isActive r = (\<exists>h. cur = Some h \<and> ETag d = head_ETag h))
             revisions ds \<and>
           (cur = None \<longrightarrow> (\<forall>r\<in>set revisions. \<not> isActive r))"
proof (intro exI conjI)
  show "fetchRevisions cl opts w =
          Some (Inr (revisionsOf (revisionPrefixOf opts) (All res) cur), w2)"
    using assms by (rule fetchRevisions_resolved)
  show "mset (js_sort byLastModified (All res)) = mset (All res)"
    by (rule mset_js_sort)
  show "list_all2 (\<lambda>r d. revision r = drop (length (revisionPrefixOf opts)) (Key d) \<and>
                           timestamp r = LastModified d \<and>
                           isActive r = (\<exists>h. cur = Some h \<and> ETag d = head_ETag h))
          (revisionsOf (revisionPrefixOf opts) (All res) cur) (js_sort byLastModified (All res))"
    by (rule revisionsOf_all2)
  show "cur = None \<longrightarrow>
          (\<forall>r\<in>set (revisionsOf (revisionPrefixOf opts) (All res) cur). \<not> isActive r)"
    by (auto simp: revisionsOf_def isActive_toRevision)
qed

text \<open>With the \<^verbatim>\<open>ETag\<close> of revision \<^verbatim>\<open>v2\<close> under the index key, the record of
  \<^verbatim>\<open>v2\<close> is active and the two others are not; with no object under the index key
  none is.\<close>

theorem fetchRevisions_active_witness:
  "(\<exists>w'. fetchRevisions scripted deploy
            (startWith [page threeObjects False None] (Inr \<lparr>head_ETag = ''e2''\<rparr>)) =
          Some (Inr [\<lparr>revision = ''v3'', timestamp = 300, active = Some False\<rparr>,
                     \<lparr>revision = ''v2'', timestamp = 200, active = Some True\<rparr>,
                     \<lparr>revision = ''v1'', timestamp = 100, active = Some False\<rparr>], w'))
   \<and> (\<exists>revisions w'. fetchRevisions scripted deploy
            (startWith [page threeObjects False None] (Inl notFound)) =
          Some (Inr revisions, w') \<and> map isActive revisions = [False, False, False])"
proof (intro conjI)
  from fetchRevisions_active [OF scripted_listing scripted_probe_found,
      of deploy threeObjects "\<lparr>head_ETag = ''e2''\<rparr>"]
  obtain revisions w' where
    "fetchRevisions scripted deploy
       (startWith [page threeObjects False None] (Inr \<lparr>head_ETag = ''e2''\<rparr>)) =
     Some (Inr revisions, w')"
    by blast
  moreover have
    "fetchRevisions scripted deploy
       (startWith [page threeObjects False None] (Inr \<lparr>head_ETag = ''e2''\<rparr>)) =
     Some (Inr (revisionsOf (revisionPrefixOf deploy) threeObjects (Some \<lparr>head_ETag = ''e2''\<rparr>)),
       \<lparr>backend = \<lparr>pages = [], index = Inr \<lparr>head_ETag = ''e2''\<rparr>\<rparr>,
        calls = [ListObjects (listingParams deploy), HeadObject (probeParams deploy)]\<rparr>)"
    using fetchRevisions_resolved [OF scripted_listing scripted_probe_found,
        of deploy threeObjects "\<lparr>head_ETag = ''e2''\<rparr>"]
    by simp
  ultimately show "\<exists>w'. fetchRevisions scripted deploy
            (startWith [page threeObjects False None] (Inr \<lparr>head_ETag = ''e2''\<rparr>)) =
          Some (Inr [\<lparr>revision = ''v3'', timestamp = 300, active = Some False\<rparr>,
                     \<lparr>revision = ''v2'', timestamp = 200, active = Some True\<rparr>,
                     \<lparr>revision = ''v1'', timestamp = 100, active = Some False\<rparr>], w')"
    by (simp add: revisionsOf_threeObjects toRevision_def stripRevisionPrefix_def obj_def)
next
  from fetchRevisions_active [OF scripted_listing scripted_probe_missing, of deploy threeObjects]
  obtain revisions w' where
    r: "fetchRevisions scripted deploy (startWith [page threeObjects False None] (Inl notFound)) =
     Some (Inr revisions, w')"
    and none: "\<forall>r\<in>set revisions. \<not> isActive r"
    by auto
  have "fetchRevisions scripted deploy (startWith [page threeObjects False None] (Inl notFound)) =
     Some (Inr (revisionsOf (revisionPrefixOf deploy) threeObjects None),
       \<lparr>backend = \<lparr>pages = [], index = Inl notFound\<rparr>,
        calls = [ListObjects (listingParams deploy), HeadObject (probeParams deploy)]\<rparr>)"
    using fetchRevisions_resolved [OF scripted_listing scripted_probe_missing, of deploy threeObjects]
    by simp
  with r have "length revisions = 3"
    by (auto simp: revisionsOf_threeObjects)
  then obtain a b c where "revisions = [a, b, c]"
    by (auto simp: length_Suc_conv numeral_3_eq_3)
  with r none show "\<exists>revisions w'. fetchRevisions scripted deploy
            (startWith [page threeObjects False None] (Inl notFound)) =
          Some (Inr revisions, w') \<and> map isActive revisions = [False, False, False]"
    by simp
qed

lemma filter_isActive_revisionsOf:
  "length (filter isActive (revisionsOf p ds cur)) =
   length (filter (\<lambda>d. \<exists>h. cur = Some h \<and> ETag d = head_ETag h) ds)"
proof -
  have "filter isActive (revisionsOf p ds cur) =
        map (toRevision p cur)
          (filter (\<lambda>d. \<exists>h. cur = Some h \<and> ETag d = head_ETag h) (js_sort byLastModified ds))"
    by (simp add: revisionsOf_def filter_map comp_def isActive_toRevision)
  then have "length (filter isActive (revisionsOf p ds cur)) =
        size (filter_mset (\<lambda>d. \<exists>h. cur = Some h \<and> ETag d = head_ETag h)
                (mset (js_sort byLastModified ds)))"
    by (simp flip: mset_filter)
  then show ?thesis
    by (simp add: mset_js_sort flip: mset_filter)
qed

lemma distinct_fingerprints:
  "distinct (map f xs) \<Longrightarrow> length (filter (\<lambda>x. f x = v) xs) \<le> 1"
proof (induction xs)
  case Nil
  then show ?case by simp
next
  case (Cons x xs)
  show ?case
  proof (cases "f x = v")
    case True
    from Cons.prems have "\<forall>y\<in>set xs. f x \<noteq> f y"
      by (simp add: image_iff)
    with True have "\<forall>y\<in>set xs. f y \<noteq> v"
      by metis
    then have "filter (\<lambda>x. f x = v) xs = []"
      by (simp add: filter_empty_conv)
    with True show ?thesis by simp
  next
    case False
    with Cons show ?thesis by simp
  qed
qed

text \<open>
  Claim C6, as amended. \<^verbatim>\<open>fetchRevisions\<close> resolves with one record for each
  listed object, and the active records are exactly those of the listed objects whose
  \<^verbatim>\<open>ETag\<close> is that of the object under the index key: as many as there are such
  objects, and none when the index key has no object. When no two listed objects have
  the same \<^verbatim>\<open>ETag\<close>, at most one record is active.
\<close>

theorem fetchRevisions_one_active:
  assumes "listAllObjects cl (listingParams opts) w = Some (Inr res, w1)"
    and "headObject cl (probeParams opts) w1 = (Inr cur, w2)"
  shows "\<exists>revisions ds. fetchRevisions cl opts w = Some (Inr revisions, w2) \<and>
           mset ds = mset (All res) \<and>
           list_all2 (\<lambda>r d. revision r = drop (length (revisionPrefixOf opts)) (Key d) \<and>
                           timestamp r = LastModified d \<and>
                           isActive r = (\<exists>h. cur = Some h \<and> ETag d = head_ETag h))
             revisions ds \<and>
           length (filter isActive revisions) =
             length (filter (\<lambda>d. \<exists>h. cur = Some h \<and> ETag d = head_ETag h) (All res)) \<and>
           (cur = None \<longrightarrow> filter isActive revisions = []) \<and>
           (distinct (map ETag (All res)) \<longrightarrow> length (filter isActive revisions) \<le> 1)"
proof (intro exI conjI impI)
  let ?rs = "revisionsOf (revisionPrefixOf opts) (All res) cur"
  show "fetchRevisions cl opts w = Some (Inr ?rs, w2)"
    using assms by (rule fetchRevisions_resolved)
  show "mset (js_sort byLastModified (All res)) = mset (All res)"
    by (rule mset_js_sort)
  show "list_all2 (\<lambda>r d. revision r = drop (length (revisionPrefixOf opts)) (Key d) \<and>
                           timestamp r = LastModified d \<and>
                           isActive r = (\<exists>h. cur = Some h \<and> ETag d = head_ETag h))
          ?rs (js_sort byLastModified (All res))"
    by (rule revisionsOf_all2)
  show n: "length (filter isActive ?rs) =
        length (filter (\<lambda>d. \<exists>h. cur = Some h \<and> ETag d = head_ETag h) (All res))"
    by (rule filter_isActive_revisionsOf)
  {
    assume "cur = None"
    with n show "filter isActive ?rs = []" by simp
  }
  {
    assume d: "distinct (map ETag (All res))"
    show "length (filter isActive ?rs) \<le> 1"
    proof (cases cur)
      case None
      with n show ?thesis by simp
    next
      case (Some h)
      with n distinct_fingerprints [OF d, of "head_ETag h"] show ?thesis by simp
    qed
  }
qed

text \<open>Of three revisions with different contents, one is active when its
  \<^verbatim>\<open>ETag\<close> is under the index key; of two revisions with the same content, both
  are.\<close>

theorem fetchRevisions_one_active_witness:
  "(\<exists>revisions w'. fetchRevisions scripted deploy
            (startWith [page threeObjects False None] (Inr \<lparr>head_ETag = ''e2''\<rparr>)) =
          Some (Inr revisions, w') \<and> length (filter isActive revisions) = 1)
   \<and> (\<exists>revisions w'. fetchRevisions scripted deploy
            (startWith [page twins False None] (Inr \<lparr>head_ETag = ''e1''\<rparr>)) =
          Some (Inr revisions, w') \<and> length (filter isActive revisions) = 2)
   \<and> (\<exists>revisions w'. fetchRevisions scripted deploy
            (startWith [page threeObjects False None] (Inl notFound)) =
          Some (Inr revisions, w') \<and> filter isActive revisions = [])"
proof (intro conjI)
  from fetchRevisions_one_active [OF scripted_listing scripted_probe_found,
      of deploy threeObjects "\<lparr>head_ETag = ''e2''\<rparr>"]
  show "\<exists>revisions w'. fetchRevisions scripted deploy
            (startWith [page threeObjects False None] (Inr \<lparr>head_ETag = ''e2''\<rparr>)) =
          Some (Inr revisions, w') \<and> length (filter isActive revisions) = 1"
    by (auto simp: threeObjects_def obj_def)
next
  from fetchRevisions_one_active [OF scripted_listing scripted_probe_found,
      of deploy twins "\<lparr>head_ETag = ''e1''\<rparr>"]
  show "\<exists>revisions w'. fetchRevisions scripted deploy
            (startWith [page twins False None] (Inr \<lparr>head_ETag = ''e1''\<rparr>)) =
          Some (Inr revisions, w') \<and> length (filter isActive revisions) = 2"
    by (auto simp: twins_def obj_def)
next
  from fetchRevisions_one_active [OF scripted_listing scripted_probe_missing,
      of deploy threeObjects]
  show "\<exists>revisions w'. fetchRevisions scripted deploy
            (startWith [page threeObjects False None] (Inl notFound)) =
          Some (Inr revisions, w') \<and> filter isActive revisions = []"
    by auto
qed

text \<open>Two revisions with the same content have the same \<^verbatim>\<open>ETag\<close>; when it is
  also the one under the index key, both records are active.\<close>

theorem fetchRevisions_at_most_one_active_counterexample:
  "fetchRevisions scripted deploy (startWith [page twins False None] (Inr \<lparr>head_ETag = ''e1''\<rparr>)) =
     Some (Inr [\<lparr>revision = ''v2'', timestamp = 200, active = Some True\<rparr>,
                \<lparr>revision = ''v1'', timestamp = 100, active = Some True\<rparr>],
           \<lparr>backend = \<lparr>pages = [], index = Inr \<lparr>head_ETag = ''e1''\<rparr>\<rparr>,
            calls = [ListObjects (listingParams deploy), HeadObject (probeParams deploy)]\<rparr>)"
  using fetchRevisions_resolved [OF scripted_listing scripted_probe_found,
        of deploy twins "\<lparr>head_ETag = ''e1''\<rparr>"]
  by (simp add: revisionsOf_def js_sort_def twins_def obj_def byLastModified_def
      revisionPrefixOf_deploy toRevision_def stripRevisionPrefix_def)

subsection \<open>headObject\<close>

text \<open>
  Claim C8. \<^verbatim>\<open>headObject\<close> resolves with nothing exactly when the client reports an
  error with the code \<^verbatim>\<open>NotFound\<close>, resolves with the data when the client reports
  no error, and is rejected with the client's error in every other case.
\<close>

theorem headObject_not_found:
  assumes "call_headObject cl params w = (raw, w')"
  shows "(fst (headObject cl params w) = Inr None) = (\<exists>err. raw = Inl err \<and> code err = ''NotFound'')
       \<and> (\<forall>data. raw = Inr data \<longrightarrow> headObject cl params w = (Inr (Some data), w'))
       \<and> (\<forall>err. raw = Inl err \<and> code err \<noteq> ''NotFound'' \<longrightarrow>
             headObject cl params w = (Inl (S3Error err), w'))
       \<and> (\<forall>err. raw = Inl err \<and> code err = ''NotFound'' \<longrightarrow>
             headObject cl params w = (Inr None, w'))"
  using assms by (cases raw) (simp_all add: headObject_def)

theorem headObject_not_found_witness:
  "fst (headObject scripted (probeParams deploy) (startWith [] (Inl notFound))) = Inr None
   \<and> fst (headObject scripted (probeParams deploy) (startWith [] (Inr \<lparr>head_ETag = ''e1''\<rparr>))) =
       Inr (Some \<lparr>head_ETag = ''e1''\<rparr>)
   \<and> fst (headObject scripted (probeParams deploy) (startWith [] (Inl accessDenied))) =
       Inl (S3Error accessDenied)"
  using
    headObject_not_found [OF scripted_headObject, of "probeParams deploy" "[]" "Inl notFound" "[]"]
    headObject_not_found [OF scripted_headObject,
      of "probeParams deploy" "[]" "Inr \<lparr>head_ETag = ''e1''\<rparr>" "[]"]
    headObject_not_found [OF scripted_headObject, of "probeParams deploy" "[]" "Inl accessDenied" "[]"]
  by (simp add: startWith_def notFound_def accessDenied_def)

subsection \<open>upload\<close>

lemma indexOf_found: "(0 \<le> indexOf xs x) = (x \<in> set xs)"
  by (induction xs) (auto simp: Let_def)

lemma listObjectRecursively_reads:
  assumes "listObjectRecursively cl opts acc w = Some y"
  shows "\<exists>cs. calls (snd y) = calls w @ cs \<and> (\<forall>c\<in>set cs. \<not> is_write c)"
proof (rule listObjectRecursively.raw_induct
    [where P = "\<lambda>cl opts acc w y.
        \<exists>cs. calls (snd y) = calls w @ cs \<and> (\<forall>c\<in>set cs. \<not> is_write c)",
     OF _ assms], goal_cases)
  case (1 rec cl opts acc w y)
  obtain a w1 where c: "call_listObjects cl opts w = (a, w1)"
    by (cases "call_listObjects cl opts w")
  have w1: "calls w1 = calls w @ [ListObjects opts]"
    using c by (rule call_listObjects_calls)
  show ?case
  proof (cases a)
    case (Inl err)
    with 1(2) c w1 show ?thesis by auto
  next
    case (Inr response)
    show ?thesis
    proof (cases "IsTruncated response")
      case False
      with 1(2) c w1 Inr show ?thesis by auto
    next
      case True
      show ?thesis
      proof (cases "getNextMarker response")
        case (Inl e)
        with 1(2) c w1 Inr True show ?thesis by auto
      next
        case m: (Inr marker)
        with 1(2) c Inr True
        have "rec cl (opts\<lparr>list_Marker := Some marker\<rparr>) (acc @ Contents response) w1 = Some y"
          by simp
        from 1(1) [OF this] obtain cs where
          "calls (snd y) = calls w1 @ cs" "\<forall>c\<in>set cs. \<not> is_write c"
          by blast
        with w1 show ?thesis by auto
      qed
    qed
  qed
qed

lemma headObject_reads:
  "headObject cl params w = (r, w') \<Longrightarrow> calls w' = calls w @ [HeadObject params]"
  by (auto simp: headObject_def call_headObject_def split: prod.splits sum.splits if_splits)

lemma fetchRevisions_reads:
  assumes "fetchRevisions cl opts w = Some (r, w')"
  shows "\<exists>cs. calls w' = calls w @ cs \<and> (\<forall>c\<in>set cs. \<not> is_write c)"
proof -
  from assms obtain l w1 where
    l: "listAllObjects cl (listingParams opts) w = Some (l, w1)"
    by (auto simp: fetchRevisions_def split: option.splits)
  obtain h w2 where h: "headObject cl (probeParams opts) w1 = (h, w2)"
    by (cases "headObject cl (probeParams opts) w1")
  from assms l h have w': "w' = w2"
    by (auto simp: fetchRevisions_def split: sum.splits)
  from l obtain cs where cs: "calls w1 = calls w @ cs" "\<forall>c\<in>set cs. \<not> is_write c"
    using listObjectRecursively_reads [of cl "listingParams opts" "[]" w "(l, w1)"]
    by (auto simp: listAllObjects_def)
  from headObject_reads [OF h] cs w'
  have "calls w' = calls w @ (cs @ [HeadObject (probeParams opts)])" by simp
  moreover have "\<forall>c\<in>set (cs @ [HeadObject (probeParams opts)]). \<not> is_write c"
    using cs(2) by simp
  ultimately show ?thesis by blast
qed

lemma fetchRevisions_issued:
  assumes "fetchRevisions cl opts w = Some (r, w')"
  shows "calls w' = calls w @ issued w w'" and "filter is_write (issued w w') = []"
  using fetchRevisions_reads [OF assms] by (auto simp: issued_def filter_empty_conv)

lemma issued_after:
  "calls w1 = calls w @ issued w w1 \<Longrightarrow> calls w2 = calls w1 @ cs \<Longrightarrow>
   issued w w2 = issued w w1 @ cs"
proof -
  assume a: "calls w1 = calls w @ issued w w1" and b: "calls w2 = calls w1 @ cs"
  from a have "length (calls w) \<le> length (calls w1)"
    by (metis le_add1 length_append)
  with b show ?thesis
    by (simp add: issued_def)
qed

lemma calls_after:
  "calls w1 = calls w @ issued w w1 \<Longrightarrow> calls w2 = calls w1 @ cs \<Longrightarrow>
   calls w2 = calls w @ issued w w2"
  using issued_after [of w1 w w2 cs] by simp

lemma call_putObject_calls:
  "call_putObject cl params w = (r, w') \<Longrightarrow> calls w' = calls w @ [PutObject params]"
  by (auto simp: call_putObject_def split: prod.splits)

lemma call_copyObject_calls:
  "call_copyObject cl params w = (r, w') \<Longrightarrow> calls w' = calls w @ [CopyObject params]"
  by (auto simp: call_copyObject_def split: prod.splits)

text \<open>
  Claim C1, as amended. \<^verbatim>\<open>upload\<close> fetches the revisions first. When the revision
  is among them and \<^verbatim>\<open>allowOverwrite\<close> is false, it is rejected with the message of
  a duplicate revision and makes no write. Otherwise it reads the local file: when the
  file is read, exactly one write is made, a \<^verbatim>\<open>putObject\<close> of the revision key; when
  the file cannot be read, the upload is rejected with that error and makes no write.
\<close>

theorem upload_overwrite_protection:
  assumes "fetchRevisions cl opts w = Some (Inr revisions, w1)"
  shows "(revisionKey opts \<in> revision ` set revisions \<and> \<not> allowOverwrite opts \<longrightarrow>
            upload ev cl opts w = Some (Inl (Message duplicateRevision), w1) \<and>
            filter is_write (issued w w1) = [])
       \<and> calls w1 = calls w @ issued w w1
       \<and> (revisionKey opts \<notin> revision ` set revisions \<or> allowOverwrite opts \<longrightarrow>
            (\<forall>body. readFile ev (filePath opts) = Inr body \<longrightarrow>
               (\<exists>ack w2. call_putObject cl (uploadParams ev opts body) w1 = (ack, w2) \<and>
                  upload ev cl opts w =
                    Some (case ack of Inl err \<Rightarrow> Inl (S3Error err) | Inr u \<Rightarrow> Inr (), w2) \<and>
                  calls w2 = calls w @ issued w w2 \<and>
                  filter is_write (issued w w2) = [PutObject (uploadParams ev opts body)] \<and>
                  put_Key (uploadParams ev opts body) = revisionKeyOf opts)) \<and>
            (\<forall>e. readFile ev (filePath opts) = Inl e \<longrightarrow>
               upload ev cl opts w = Some (Inl (FsError e), w1) \<and>
               filter is_write (issued w w1) = []))"
proof (intro conjI impI allI)
  note reads = fetchRevisions_issued [OF assms]
  {
    assume "revisionKey opts \<in> revision ` set revisions \<and> \<not> allowOverwrite opts"
    then show "upload ev cl opts w = Some (Inl (Message duplicateRevision), w1)"
      using assms by (simp add: upload_def indexOf_found)
    show "filter is_write (issued w w1) = []"
      by (rule reads(2))
  }
  show "calls w1 = calls w @ issued w w1"
    by (rule reads(1))
  assume other: "revisionKey opts \<notin> revision ` set revisions \<or> allowOverwrite opts"
  {
    fix body
    assume body: "readFile ev (filePath opts) = Inr body"
    obtain ack w2 where p: "call_putObject cl (uploadParams ev opts body) w1 = (ack, w2)"
      by (cases "call_putObject cl (uploadParams ev opts body) w1")
    have u: "upload ev cl opts w =
          Some (case ack of Inl err \<Rightarrow> Inl (S3Error err) | Inr u \<Rightarrow> Inr (), w2)"
      using assms other body p by (auto simp: upload_def indexOf_found split: sum.splits)
    have i: "issued w w2 = issued w w1 @ [PutObject (uploadParams ev opts body)]"
      using reads(1) call_putObject_calls [OF p] by (rule issued_after)
    have k: "put_Key (uploadParams ev opts body) = revisionKeyOf opts"
      by (simp add: uploadParams_def Let_def)
    have c: "calls w2 = calls w @ issued w w2"
      using reads(1) call_putObject_calls [OF p] by (rule calls_after)
    show "\<exists>ack w2. call_putObject cl (uploadParams ev opts body) w1 = (ack, w2) \<and>
            upload ev cl opts w =
              Some (case ack of Inl err \<Rightarrow> Inl (S3Error err) | Inr u \<Rightarrow> Inr (), w2) \<and>
            calls w2 = calls w @ issued w w2 \<and>
            filter is_write (issued w w2) = [PutObject (uploadParams ev opts body)] \<and>
            put_Key (uploadParams ev opts body) = revisionKeyOf opts"
      using p u i k c reads(2) by simp
  }
  {
    fix e
    assume "readFile ev (filePath opts) = Inl e"
    then show "upload ev cl opts w = Some (Inl (FsError e), w1)"
      using assms other by (auto simp: upload_def indexOf_found)
    show "filter is_write (issued w w1) = []"
      by (rule reads(2))
  }
qed

lemma fetchRevisions_scripted:
  "fetchRevisions scripted opts (startWith [page ds False None] (Inl notFound)) =
     Some (Inr (revisionsOf (revisionPrefixOf opts) ds None),
           \<lparr>backend = \<lparr>pages = [], index = Inl notFound\<rparr>,
            calls = [ListObjects (listingParams opts), HeadObject (probeParams opts)]\<rparr>)"
  using fetchRevisions_resolved [OF scripted_listing scripted_probe_missing, of opts ds]
  by simp

lemma revisions_threeObjects:
  "map revision (revisionsOf ''app/index.html:'' threeObjects cur) = [''v3'', ''v2'', ''v1'']"
  by (simp add: revisionsOf_def js_sort_def threeObjects_def obj_def byLastModified_def
      toRevision_def stripRevisionPrefix_def)

lemma scripted_putObject:
  "call_putObject scripted params \<lparr>backend = b, calls = cs\<rparr> =
     (Inr (), \<lparr>backend = b, calls = cs @ [PutObject params]\<rparr>)"
  by (simp add: call_putObject_def scripted_def)

lemma scripted_copyObject:
  "call_copyObject scripted params \<lparr>backend = b, calls = cs\<rparr> =
     (Inr (), \<lparr>backend = b, calls = cs @ [CopyObject params]\<rparr>)"
  by (simp add: call_copyObject_def scripted_def)

lemma revisionPrefixOf_update [simp]:
  "revisionPrefixOf (opts\<lparr>allowOverwrite := a\<rparr>) = revisionPrefixOf opts"
  "revisionPrefixOf (opts\<lparr>revisionKey := k\<rparr>) = revisionPrefixOf opts"
  "revisionPrefixOf (opts\<lparr>filePath := f\<rparr>) = revisionPrefixOf opts"
  by (simp_all add: revisionPrefixOf_def)

lemma params_update [simp]:
  "listingParams (opts\<lparr>allowOverwrite := a\<rparr>) = listingParams opts"
  "listingParams (opts\<lparr>revisionKey := k\<rparr>) = listingParams opts"
  "listingParams (opts\<lparr>filePath := f\<rparr>) = listingParams opts"
  "probeParams (opts\<lparr>allowOverwrite := a\<rparr>) = probeParams opts"
  "probeParams (opts\<lparr>revisionKey := k\<rparr>) = probeParams opts"
  "probeParams (opts\<lparr>filePath := f\<rparr>) = probeParams opts"
  by (simp_all add: listingParams_def probeParams_def indexKeyOf_def)

theorem upload_overwrite_protection_witness:
  "upload disk scripted deploy (startWith [page threeObjects False None] (Inl notFound)) =
     Some (Inl (Message duplicateRevision),
           \<lparr>backend = \<lparr>pages = [], index = Inl notFound\<rparr>,
            calls = [ListObjects (listingParams deploy), HeadObject (probeParams deploy)]\<rparr>)
   \<and> upload disk scripted (deploy\<lparr>allowOverwrite := True\<rparr>)
         (startWith [page threeObjects False None] (Inl notFound)) =
       Some (Inr (),
           \<lparr>backend = \<lparr>pages = [], index = Inl notFound\<rparr>,
            calls = [ListObjects (listingParams deploy), HeadObject (probeParams deploy),
                     PutObject \<lparr>put_Bucket = ''assets'', put_Key = ''app/index.html:v1'',
                       put_ACL = ''public-read'', put_ContentType = ''text/html'',
                       put_CacheControl = ''max-age=0, no-cache'',
                       put_ServerSideEncryption = None, put_ContentEncoding = None,
                       put_Body = ''<html></html>''\<rparr>]\<rparr>)
   \<and> upload disk scripted (deploy\<lparr>revisionKey := ''v4'', filePath := ''dist/missing.html''\<rparr>)
         (startWith [page threeObjects False None] (Inl notFound)) =
       Some (Inl (FsError ''ENOENT''),
           \<lparr>backend = \<lparr>pages = [], index = Inl notFound\<rparr>,
            calls = [ListObjects (listingParams deploy), HeadObject (probeParams deploy)]\<rparr>)"
proof (intro conjI)
  have "set (map revision (revisionsOf (revisionPrefixOf deploy) threeObjects None)) =
          set [''v3'', ''v2'', ''v1'']"
    by (simp only: revisions_threeObjects revisionPrefixOf_deploy)
  then have "revisionKey deploy \<in> revision ` set
          (revisionsOf (revisionPrefixOf deploy) threeObjects None) \<and> \<not> allowOverwrite deploy"
    by (simp add: deploy_def)
  with upload_overwrite_protection [OF fetchRevisions_scripted, of deploy threeObjects disk]
  show "upload disk scripted deploy (startWith [page threeObjects False None] (Inl notFound)) =
     Some (Inl (Message duplicateRevision),
           \<lparr>backend = \<lparr>pages = [], index = Inl notFound\<rparr>,
            calls = [ListObjects (listingParams deploy), HeadObject (probeParams deploy)]\<rparr>)"
    by blast
next
  let ?opts = "deploy\<lparr>allowOverwrite := True\<rparr>"
  let ?w1 = "\<lparr>backend = \<lparr>pages = [], index = Inl notFound\<rparr>,
            calls = [ListObjects (listingParams ?opts), HeadObject (probeParams ?opts)]\<rparr>"
  have body: "readFile disk (filePath ?opts) = Inr ''<html></html>''"
    by (simp add: disk_def deploy_def)
  have allow: "revisionKey ?opts \<notin> revision ` set
          (revisionsOf (revisionPrefixOf ?opts) threeObjects None) \<or> allowOverwrite ?opts"
    by simp
  from upload_overwrite_protection [OF fetchRevisions_scripted, of ?opts threeObjects disk]
    allow body
  obtain ack w2 where
    p: "call_putObject scripted (uploadParams disk ?opts ''<html></html>'') ?w1 = (ack, w2)"
    and u: "upload disk scripted ?opts (startWith [page threeObjects False None] (Inl notFound)) =
          Some (case ack of Inl err \<Rightarrow> Inl (S3Error err) | Inr u \<Rightarrow> Inr (), w2)"
    by blast
  have k: "uploadParams disk ?opts ''<html></html>'' =
        \<lparr>put_Bucket = ''assets'', put_Key = ''app/index.html:v1'',
         put_ACL = ''public-read'', put_ContentType = ''text/html'',
         put_CacheControl = ''max-age=0, no-cache'',
         put_ServerSideEncryption = None, put_ContentEncoding = None,
         put_Body = ''<html></html>''\<rparr>"
    by (simp add: uploadParams_def deploy_def disk_def revisionKeyOf_def joinUriSegments_def
        truthy_def)
  from p u show "upload disk scripted ?opts
         (startWith [page threeObjects False None] (Inl notFound)) =
       Some (Inr (),
           \<lparr>backend = \<lparr>pages = [], index = Inl notFound\<rparr>,
            calls = [ListObjects (listingParams deploy), HeadObject (probeParams deploy),
                     PutObject \<lparr>put_Bucket = ''assets'', put_Key = ''app/index.html:v1'',
                       put_ACL = ''public-read'', put_ContentType = ''text/html'',
                       put_CacheControl = ''max-age=0, no-cache'',
                       put_ServerSideEncryption = None, put_ContentEncoding = None,
                       put_Body = ''<html></html>''\<rparr>]\<rparr>)"
    by (auto simp: scripted_putObject k)
next
  let ?opts = "deploy\<lparr>revisionKey := ''v4'', filePath := ''dist/missing.html''\<rparr>"
  have "set (map revision (revisionsOf (revisionPrefixOf ?opts) threeObjects None)) =
          set [''v3'', ''v2'', ''v1'']"
    by (simp only: revisions_threeObjects revisionPrefixOf_update revisionPrefixOf_deploy)
  then have other: "revisionKey ?opts \<notin> revision ` set
          (revisionsOf (revisionPrefixOf ?opts) threeObjects None) \<or> allowOverwrite ?opts"
    by simp
  have missing: "readFile disk (filePath ?opts) = Inl ''ENOENT''"
    by (simp add: disk_def)
  from upload_overwrite_protection [OF fetchRevisions_scripted, of ?opts threeObjects disk]
    other missing
  have "upload disk scripted ?opts (startWith [page threeObjects False None] (Inl notFound)) =
       Some (Inl (FsError ''ENOENT''),
           \<lparr>backend = \<lparr>pages = [], index = Inl notFound\<rparr>,
            calls = [ListObjects (listingParams ?opts), HeadObject (probeParams ?opts)]\<rparr>)"
    by blast
  then show "upload disk scripted ?opts
         (startWith [page threeObjects False None] (Inl notFound)) =
       Some (Inl (FsError ''ENOENT''),
           \<lparr>backend = \<lparr>pages = [], index = Inl notFound\<rparr>,
            calls = [ListObjects (listingParams deploy), HeadObject (probeParams deploy)]\<rparr>)"
    by simp
qed

text \<open>No revision is in the bucket and the local file is missing: the upload is
  rejected and no \<^verbatim>\<open>putObject\<close> is made.\<close>

theorem upload_one_write_counterexample:
  "fetchRevisions scripted (deploy\<lparr>filePath := ''dist/missing.html''\<rparr>)
       (startWith [page [] False None] (Inl notFound)) =
     Some (Inr [],
           \<lparr>backend = \<lparr>pages = [], index = Inl notFound\<rparr>,
            calls = [ListObjects (listingParams deploy), HeadObject (probeParams deploy)]\<rparr>)
   \<and> upload disk scripted (deploy\<lparr>filePath := ''dist/missing.html''\<rparr>)
       (startWith [page [] False None] (Inl notFound)) =
     Some (Inl (FsError ''ENOENT''),
           \<lparr>backend = \<lparr>pages = [], index = Inl notFound\<rparr>,
            calls = [ListObjects (listingParams deploy), HeadObject (probeParams deploy)]\<rparr>)"
  by (simp add: upload_def fetchRevisions_scripted revisionsOf_def js_sort_def disk_def)

lemma not_write_writtenKey: "\<not> is_write c \<Longrightarrow> writtenKey c = None"
  by (cases c) simp_all

lemma revisionKeyOf_not_indexKeyOf: "revisionKeyOf opts \<noteq> indexKeyOf opts"
  by (simp add: revisionKeyOf_split)

text \<open>
  Claim C9. When \<^verbatim>\<open>upload\<close> succeeds, the only call it made that writes to the
  bucket is one \<^verbatim>\<open>putObject\<close> of the revision key; the revision key is not the
  index key, and no call of the upload writes the index key.
\<close>

theorem upload_frame:
  assumes "upload ev cl opts w = Some (Inr (), w')"
  shows "\<exists>body. readFile ev (filePath opts) = Inr body \<and>
           calls w' = calls w @ issued w w' \<and>
           filter is_write (issued w w') = [PutObject (uploadParams ev opts body)] \<and>
           put_Bucket (uploadParams ev opts body) = bucket opts \<and>
           put_Key (uploadParams ev opts body) = revisionKeyOf opts \<and>
           revisionKeyOf opts \<noteq> indexKeyOf opts \<and>
           (\<forall>c\<in>set (issued w w'). writtenKey c \<noteq> Some (indexKeyOf opts))"
proof -
  from assms obtain revisions w1 where
    f: "fetchRevisions cl opts w = Some (Inr revisions, w1)"
    by (auto simp: upload_def split: option.splits sum.splits)
  from assms f obtain body where body: "readFile ev (filePath opts) = Inr body"
    by (auto simp: upload_def Let_def split: if_splits sum.splits)
  from assms f body have p: "call_putObject cl (uploadParams ev opts body) w1 = (Inr (), w')"
    by (auto simp: upload_def Let_def split: if_splits sum.splits prod.splits)
  note reads = fetchRevisions_issued [OF f]
  have i: "issued w w' = issued w w1 @ [PutObject (uploadParams ev opts body)]"
    using reads(1) call_putObject_calls [OF p] by (rule issued_after)
  have k: "put_Key (uploadParams ev opts body) = revisionKeyOf opts"
    and b: "put_Bucket (uploadParams ev opts body) = bucket opts"
    by (simp_all add: uploadParams_def Let_def)
  have "\<forall>c\<in>set (issued w w1). writtenKey c = None"
    using reads(2) by (auto simp: filter_empty_conv not_write_writtenKey)
  with i k have "\<forall>c\<in>set (issued w w'). writtenKey c \<noteq> Some (indexKeyOf opts)"
    by (auto simp: revisionKeyOf_not_indexKeyOf)
  moreover have "calls w' = calls w @ issued w w'"
    using reads(1) call_putObject_calls [OF p] by (rule calls_after)
  ultimately show ?thesis
    using body i k b reads(2) by (simp add: revisionKeyOf_not_indexKeyOf)
qed

theorem upload_frame_witness:
  "upload disk scripted (deploy\<lparr>revisionKey := ''v4''\<rparr>)
       (startWith [page threeObjects False None] (Inl notFound)) =
     Some (Inr (),
           \<lparr>backend = \<lparr>pages = [], index = Inl notFound\<rparr>,
            calls = [ListObjects (listingParams deploy), HeadObject (probeParams deploy),
                     PutObject (uploadParams disk (deploy\<lparr>revisionKey := ''v4''\<rparr>)
                                  ''<html></html>'')]\<rparr>)
   \<and> put_Key (uploadParams disk (deploy\<lparr>revisionKey := ''v4''\<rparr>) ''<html></html>'') =
       ''app/index.html:v4''
   \<and> list_all (\<lambda>c. writtenKey c \<noteq> Some ''app/index.html'')
         (issued (startWith [page threeObjects False None] (Inl notFound))
            \<lparr>backend = \<lparr>pages = [], index = Inl notFound\<rparr>,
             calls = [ListObjects (listingParams deploy), HeadObject (probeParams deploy),
                      PutObject (uploadParams disk (deploy\<lparr>revisionKey := ''v4''\<rparr>)
                                   ''<html></html>'')]\<rparr>)"
proof (intro conjI)
  let ?opts = "deploy\<lparr>revisionKey := ''v4''\<rparr>"
  let ?w = "startWith [page threeObjects False None] (Inl notFound)"
  let ?w' = "\<lparr>backend = \<lparr>pages = [], index = Inl notFound\<rparr>,
             calls = [ListObjects (listingParams deploy), HeadObject (probeParams deploy),
                      PutObject (uploadParams disk ?opts ''<html></html>'')]\<rparr>"
  show u: "upload disk scripted ?opts ?w = Some (Inr (), ?w')"
    by (simp add: upload_def fetchRevisions_scripted revisionPrefixOf_deploy
        revisions_threeObjects)
      (simp add: disk_def deploy_def scripted_putObject)
  show "put_Key (uploadParams disk ?opts ''<html></html>'') = ''app/index.html:v4''"
    by (simp add: uploadParams_def Let_def revisionKeyOf_def deploy_def joinUriSegments_def)
  have "indexKeyOf ?opts = ''app/index.html''"
    by (simp add: indexKeyOf_def deploy_def joinUriSegments_def)
  moreover from upload_frame [OF u]
  have "\<forall>c\<in>set (issued ?w ?w'). writtenKey c \<noteq> Some (indexKeyOf ?opts)"
    by blast
  ultimately show "list_all (\<lambda>c. writtenKey c \<noteq> Some ''app/index.html'') (issued ?w ?w')"
    by (simp only: list_all_iff)
qed

subsection \<open>activate\<close>

text \<open>
  Claim C2. \<^verbatim>\<open>activate\<close> fetches the revisions first. When the revision is not
  among them it is rejected with the message that the revision is not found and makes
  no copy. When it is among them, exactly one write is made, a \<^verbatim>\<open>copyObject\<close> whose
  source is the revision key in the bucket and whose destination is the index key.
\<close>

theorem activate_guard:
  assumes "fetchRevisions cl opts w = Some (Inr revisions, w1)"
  shows "(revisionKey opts \<notin> revision ` set revisions \<longrightarrow>
            activate cl opts w = Some (Inl (Message revisionNotFound), w1) \<and>
            filter is_write (issued w w1) = [])
       \<and> calls w1 = calls w @ issued w w1
       \<and> (revisionKey opts \<in> revision ` set revisions \<longrightarrow>
            (\<exists>ack w2. call_copyObject cl (activateParams opts) w1 = (ack, w2) \<and>
               activate cl opts w =
                 Some (case ack of Inl err \<Rightarrow> Inl (S3Error err) | Inr u \<Rightarrow> Inr (), w2) \<and>
               calls w2 = calls w @ issued w w2 \<and>
               filter is_write (issued w w2) = [CopyObject (activateParams opts)]))
       \<and> CopySource (activateParams opts) =
            encodeURIComponent (bucket opts @ ''/'' @ revisionKeyOf opts)
       \<and> copy_Bucket (activateParams opts) = bucket opts
       \<and> copy_Key (activateParams opts) = indexKeyOf opts"
proof (intro conjI impI)
  note reads = fetchRevisions_issued [OF assms]
  {
    assume "revisionKey opts \<notin> revision ` set revisions"
    then show "activate cl opts w = Some (Inl (Message revisionNotFound), w1)"
      using assms by (simp add: activate_def indexOf_found)
    show "filter is_write (issued w w1) = []"
      by (rule reads(2))
  }
  show "calls w1 = calls w @ issued w w1"
    by (rule reads(1))
  {
    assume found: "revisionKey opts \<in> revision ` set revisions"
    obtain ack w2 where c: "call_copyObject cl (activateParams opts) w1 = (ack, w2)"
      by (cases "call_copyObject cl (activateParams opts) w1")
    have a: "activate cl opts w =
          Some (case ack of Inl err \<Rightarrow> Inl (S3Error err) | Inr u \<Rightarrow> Inr (), w2)"
      using assms found c by (auto simp: activate_def indexOf_found split: sum.splits)
    have i: "issued w w2 = issued w w1 @ [CopyObject (activateParams opts)]"
      using reads(1) call_copyObject_calls [OF c] by (rule issued_after)
    have e: "calls w2 = calls w @ issued w w2"
      using reads(1) call_copyObject_calls [OF c] by (rule calls_after)
    show "\<exists>ack w2. call_copyObject cl (activateParams opts) w1 = (ack, w2) \<and>
            activate cl opts w =
              Some (case ack of Inl err \<Rightarrow> Inl (S3Error err) | Inr u \<Rightarrow> Inr (), w2) \<and>
            calls w2 = calls w @ issued w w2 \<and>
            filter is_write (issued w w2) = [CopyObject (activateParams opts)]"
      using c a i e reads(2) by simp
  }
qed (simp_all add: activateParams_def)

theorem activate_guard_witness:
  "activate scripted (deploy\<lparr>revisionKey := ''v9''\<rparr>)
       (startWith [page threeObjects False None] (Inl notFound)) =
     Some (Inl (Message revisionNotFound),
           \<lparr>backend = \<lparr>pages = [], index = Inl notFound\<rparr>,
            calls = [ListObjects (listingParams deploy), HeadObject (probeParams deploy)]\<rparr>)
   \<and> activate scripted (deploy\<lparr>revisionKey := ''v2''\<rparr>)
         (startWith [page threeObjects False None] (Inl notFound)) =
       Some (Inr (),
           \<lparr>backend = \<lparr>pages = [], index = Inl notFound\<rparr>,
            calls = [ListObjects (listingParams deploy), HeadObject (probeParams deploy),
                     CopyObject \<lparr>copy_Bucket = ''assets'',
                       CopySource = ''assets%2Fapp%2Findex.html%3Av2'',
                       copy_Key = ''app/index.html'', copy_ACL = ''public-read'',
                       copy_ServerSideEncryption = None\<rparr>]\<rparr>)"
proof (intro conjI)
  let ?opts = "deploy\<lparr>revisionKey := ''v9''\<rparr>"
  have "set (map revision (revisionsOf (revisionPrefixOf ?opts) threeObjects None)) =
          set [''v3'', ''v2'', ''v1'']"
    by (simp only: revisions_threeObjects revisionPrefixOf_update revisionPrefixOf_deploy)
  then have "revisionKey ?opts \<notin> revision ` set
          (revisionsOf (revisionPrefixOf ?opts) threeObjects None)"
    by simp
  with activate_guard [OF fetchRevisions_scripted, of ?opts threeObjects]
  show "activate scripted ?opts (startWith [page threeObjects False None] (Inl notFound)) =
     Some (Inl (Message revisionNotFound),
           \<lparr>backend = \<lparr>pages = [], index = Inl notFound\<rparr>,
            calls = [ListObjects (listingParams deploy), HeadObject (probeParams deploy)]\<rparr>)"
    by simp
next
  let ?opts = "deploy\<lparr>revisionKey := ''v2''\<rparr>"
  let ?w1 = "\<lparr>backend = \<lparr>pages = [], index = Inl notFound\<rparr>,
            calls = [ListObjects (listingParams ?opts), HeadObject (probeParams ?opts)]\<rparr>"
  have "set (map revision (revisionsOf (revisionPrefixOf ?opts) threeObjects None)) =
          set [''v3'', ''v2'', ''v1'']"
    by (simp only: revisions_threeObjects revisionPrefixOf_update revisionPrefixOf_deploy)
  then have "revisionKey ?opts \<in> revision ` set
          (revisionsOf (revisionPrefixOf ?opts) threeObjects None)"
    by simp
  with activate_guard [OF fetchRevisions_scripted, of ?opts threeObjects]
  obtain ack w2 where
    c: "call_copyObject scripted (activateParams ?opts) ?w1 = (ack, w2)"
    and a: "activate scripted ?opts (startWith [page threeObjects False None] (Inl notFound)) =
          Some (case ack of Inl err \<Rightarrow> Inl (S3Error err) | Inr u \<Rightarrow> Inr (), w2)"
    by blast
  have k: "activateParams ?opts =
        \<lparr>copy_Bucket = ''assets'', CopySource = ''assets%2Fapp%2Findex.html%3Av2'',
         copy_Key = ''app/index.html'', copy_ACL = ''public-read'',
         copy_ServerSideEncryption = None\<rparr>"
    by (simp add: activateParams_def deploy_def revisionKeyOf_def indexKeyOf_def
        joinUriSegments_def truthy_def encodeURIComponent_def encodeChar_def unreserved_def
        percent_def hexDigit_def)
  from c a show "activate scripted ?opts
         (startWith [page threeObjects False None] (Inl notFound)) =
       Some (Inr (),
           \<lparr>backend = \<lparr>pages = [], index = Inl notFound\<rparr>,
            calls = [ListObjects (listingParams deploy), HeadObject (probeParams deploy),
                     CopyObject \<lparr>copy_Bucket = ''assets'',
                       CopySource = ''assets%2Fapp%2Findex.html%3Av2'',
                       copy_Key = ''app/index.html'', copy_ACL = ''public-read'',
                       copy_ServerSideEncryption = None\<rparr>]\<rparr>)"
    by (auto simp: scripted_copyObject k)
qed

end
